theory Spec2Isabelle
  imports Main
begin

section \<open>Data model (shared/schema.ts)\<close>

text \<open>
  The \<open>downloads\<close> table. The column \<open>status\<close> is text; the schema's comment lists
  its four values, the only ones the server ever writes. \<open>progress\<close> is a JavaScript
  number: the in-memory store keeps whatever \<open>Math.round\<close> produced, which is an
  integer, \<open>Infinity\<close> or \<open>NaN\<close>. A nullable column is an option (\<open>None\<close> is
  \<open>null\<close>, or an absent key of the inserted object).
\<close>

datatype download_status = Pending | Downloading | Completed | Failed

datatype number = Finite int | Infinity | NaN

record insertDownload =
  youtubeUrl :: string
  title :: string
  duration :: "string option"
  thumbnail :: "string option"
  channel :: "string option"
  views :: "string option"
  publishDate :: "string option"
  format :: "string option"

record download = insertDownload +
  id' :: string
  status :: download_status
  progress :: "number option"
  filePath :: "string option"
  createdAt :: "int option"

text \<open>
  \<open>Partial<Download>\<close>: every key may be absent (\<open>None\<close>) or present with a value of
  the column's type.
\<close>

record download_updates =
  u_youtubeUrl :: "string option"
  u_title :: "string option"
  u_duration :: "string option option"
  u_thumbnail :: "string option option"
  u_channel :: "string option option"
  u_views :: "string option option"
  u_publishDate :: "string option option"
  u_format :: "string option option"
  u_id :: "string option"
  u_status :: "download_status option"
  u_progress :: "number option option"
  u_filePath :: "string option option"
  u_createdAt :: "int option option"

definition no_updates :: download_updates where
  "no_updates = \<lparr>u_youtubeUrl = None, u_title = None, u_duration = None, u_thumbnail = None,
     u_channel = None, u_views = None, u_publishDate = None, u_format = None, u_id = None,
     u_status = None, u_progress = None, u_filePath = None, u_createdAt = None\<rparr>"

record user =
  user_id :: string
  username :: string
  password :: string

section \<open>The record store (server/storage.ts, class MemStorage)\<close>

record MemStorage =
  users :: "string \<rightharpoonup> user"
  downloads :: "string \<rightharpoonup> download"

text \<open>The object spread \<open>{ ...download, ...updates }\<close>: a key of \<open>updates\<close> wins.\<close>

definition override :: "'a \<Rightarrow> 'a option \<Rightarrow> 'a" where
  "override old new = (case new of None \<Rightarrow> old | Some v \<Rightarrow> v)"

definition spread :: "download \<Rightarrow> download_updates \<Rightarrow> download" where
  "spread d u =
     \<lparr>youtubeUrl = override (youtubeUrl d) (u_youtubeUrl u),
      title = override (title d) (u_title u),
      duration = override (duration d) (u_duration u),
      thumbnail = override (thumbnail d) (u_thumbnail u),
      channel = override (channel d) (u_channel u),
      views = override (views d) (u_views u),
      publishDate = override (publishDate d) (u_publishDate u),
      format = override (format d) (u_format u),
      id' = override (id' d) (u_id u),
      status = override (status d) (u_status u),
      progress = override (progress d) (u_progress u),
      filePath = override (filePath d) (u_filePath u),
      createdAt = override (createdAt d) (u_createdAt u)\<rparr>"

text \<open>
  \<open>createDownload\<close>: \<open>randomUUID()\<close> and \<open>new Date()\<close> are results of the
  environment, passed in as \<open>uuid\<close> and \<open>now\<close>.
\<close>

definition createDownload ::
  "insertDownload \<Rightarrow> string \<Rightarrow> int \<Rightarrow> MemStorage \<Rightarrow> download \<times> MemStorage" where
  "createDownload ins uuid now s =
     (let d = \<lparr>youtubeUrl = youtubeUrl ins, title = title ins, duration = duration ins,
                thumbnail = thumbnail ins, channel = channel ins, views = views ins,
                publishDate = publishDate ins, format = format ins,
                id' = uuid, status = Pending, progress = Some (Finite 0), filePath = None,
                createdAt = Some now\<rparr>
      in (d, s\<lparr>downloads := (downloads s)(uuid \<mapsto> d)\<rparr>))"

definition getDownload :: "string \<Rightarrow> MemStorage \<Rightarrow> download option" where
  "getDownload i s = downloads s i"

definition updateDownload ::
  "string \<Rightarrow> download_updates \<Rightarrow> MemStorage \<Rightarrow> download option \<times> MemStorage" where
  "updateDownload i updates s =
     (case downloads s i of
        None \<Rightarrow> (None, s)
      | Some d \<Rightarrow>
          (let updatedDownload = spread d updates
           in (Some updatedDownload, s\<lparr>downloads := (downloads s)(i \<mapsto> updatedDownload)\<rparr>)))"

section \<open>Request bodies and insertDownloadSchema (shared/schema.ts)\<close>

text \<open>
  A request body as \<open>express.json()\<close> delivers it. An object keeps its members in
  source order; \<open>JSON.parse\<close> lets a later duplicate key win.
\<close>

datatype json = JNull | JBool bool | JNumber int | JString string | JArray "json list"
  | JObject "(string \<times> json) list"

definition member :: "(string \<times> json) list \<Rightarrow> string \<Rightarrow> json option" where
  "member kvs k = map_of (rev kvs) k"

text \<open>
  The column schemas that \<open>createInsertSchema\<close> derives: a \<open>notNull\<close> text column
  without default is \<open>z.string()\<close>; a nullable text column is
  \<open>z.string().nullable().optional()\<close>; \<open>format\<close> (\<open>notNull\<close> with a default) is
  \<open>z.string().optional()\<close>. The outer \<open>None\<close> of a result is a validation issue.
\<close>

definition z_string :: "json option \<Rightarrow> string option" where
  "z_string v = (case v of Some (JString x) \<Rightarrow> Some x | _ \<Rightarrow> None)"

definition z_string_optional :: "json option \<Rightarrow> string option option" where
  "z_string_optional v =
     (case v of None \<Rightarrow> Some None | Some (JString x) \<Rightarrow> Some (Some x) | _ \<Rightarrow> None)"

definition z_string_nullable_optional :: "json option \<Rightarrow> string option option" where
  "z_string_nullable_optional v =
     (case v of None \<Rightarrow> Some None | Some JNull \<Rightarrow> Some None
      | Some (JString x) \<Rightarrow> Some (Some x) | _ \<Rightarrow> None)"

text \<open>\<open>insertDownloadSchema.parse\<close>: \<open>None\<close> is the thrown \<open>ZodError\<close>.\<close>

definition insertDownloadSchema_parse :: "json \<Rightarrow> insertDownload option" where
  "insertDownloadSchema_parse body =
     (case body of
        JObject kvs \<Rightarrow>
          Option.bind (z_string (member kvs ''youtubeUrl'')) (\<lambda>url.
          Option.bind (z_string (member kvs ''title'')) (\<lambda>ti.
          Option.bind (z_string_nullable_optional (member kvs ''duration'')) (\<lambda>du.
          Option.bind (z_string_nullable_optional (member kvs ''thumbnail'')) (\<lambda>th.
          Option.bind (z_string_nullable_optional (member kvs ''channel'')) (\<lambda>ch.
          Option.bind (z_string_nullable_optional (member kvs ''views'')) (\<lambda>vi.
          Option.bind (z_string_nullable_optional (member kvs ''publishDate'')) (\<lambda>pd.
          Option.bind (z_string_optional (member kvs ''format'')) (\<lambda>fo.
            Some \<lparr>youtubeUrl = url, title = ti, duration = du, thumbnail = th, channel = ch,
                  views = vi, publishDate = pd, format = fo\<rparr>))))))))
      | _ \<Rightarrow> None)"

text \<open>\<open>String.prototype.startsWith\<close> and \<open>includes\<close>.\<close>

definition startsWith :: "string \<Rightarrow> string \<Rightarrow> bool" where
  "startsWith x p = (take (length p) x = p)"

fun includesStr :: "string \<Rightarrow> string \<Rightarrow> bool" where
  "includesStr [] p = (p = [])"
| "includesStr (c # cs) p = (startsWith (c # cs) p \<or> includesStr cs p)"

text \<open>
  The site test of \<open>videoAnalysisSchema\<close> (its \<open>refine\<close>), the only source-site
  pattern of the repository. \<open>POST /api/analyze\<close> is its only user.
\<close>

definition acceptedSourceSite :: "string \<Rightarrow> bool" where
  "acceptedSourceSite url = (includesStr url ''youtube.com/watch'' \<or> includesStr url ''youtu.be/'')"

section \<open>HTTP handlers (server/routes.ts)\<close>

datatype http_response =
    OkDownload download
  | BadRequest
  | NotFound string
  | FileStream string

text \<open>
  What a handler does, in order: the response it sends and the pipeline it starts
  without awaiting it (download id, url, format, title).
\<close>

datatype action = Respond http_response | Launch string string string string

text \<open>\<open>downloadData.format || "mp4"\<close>: an absent or empty format is falsy.\<close>

definition format_or_mp4 :: "string option \<Rightarrow> string" where
  "format_or_mp4 f = (case f of None \<Rightarrow> ''mp4'' | Some x \<Rightarrow> if x = [] then ''mp4'' else x)"

definition post_download :: "json \<Rightarrow> string \<Rightarrow> int \<Rightarrow> MemStorage \<Rightarrow> action list \<times> MemStorage" where
  "post_download body uuid now s =
     (case insertDownloadSchema_parse body of
        None \<Rightarrow> ([Respond BadRequest], s)
      | Some downloadData \<Rightarrow>
          (case createDownload downloadData uuid now s of
             (download, s') \<Rightarrow>
               ([Respond (OkDownload download),
                 Launch (id' download) (youtubeUrl downloadData)
                   (format_or_mp4 (format downloadData)) (title downloadData)], s')))"

text \<open>
  \<open>GET /api/download/:id/file\<close>. \<open>existsSync\<close> is the file system's answer; the
  response headers are left out.
\<close>

definition get_download_file :: "(string \<Rightarrow> bool) \<Rightarrow> string \<Rightarrow> MemStorage \<Rightarrow> http_response" where
  "get_download_file existsSync i s =
     (case getDownload i s of
        None \<Rightarrow> NotFound ''File not found or download not completed''
      | Some download \<Rightarrow>
          if status download \<noteq> Completed
          then NotFound ''File not found or download not completed''
          else (case filePath download of
                  None \<Rightarrow> NotFound ''File not found or download not completed''
                | Some p \<Rightarrow>
                    if p = [] then NotFound ''File not found or download not completed''
                    else if \<not> existsSync p then NotFound ''File not found on disk''
                    else FileStream p))"

section \<open>The store as the pipeline sees it\<close>

text \<open>
  The pipeline and the executors reach the store through \<open>storage.createDownload\<close> and
  \<open>storage.updateDownload\<close> only. \<open>history\<close> records every record written to the
  downloads map, in order: the observation points of the jobs. \<open>eventQueue\<close> holds
  the calls of \<open>tryYtdlCore\<close>'s progress listener that are still to come (download id
  and rounded percentage), grouped by the suspension point of the program at which the
  event loop will run them.
\<close>

type_synonym late_write = "string \<times> number"

record world =
  storage :: MemStorage
  history :: "(string \<times> download) list"
  eventQueue :: "late_write list list"

definition storage_createDownload ::
  "insertDownload \<Rightarrow> string \<Rightarrow> int \<Rightarrow> world \<Rightarrow> download \<times> world" where
  "storage_createDownload ins uuid now w =
     (case createDownload ins uuid now (storage w) of
        (d, s') \<Rightarrow> (d, w\<lparr>storage := s', history := history w @ [(uuid, d)]\<rparr>))"

definition storage_updateDownload :: "string \<Rightarrow> download_updates \<Rightarrow> world \<Rightarrow> world" where
  "storage_updateDownload i u w =
     (case updateDownload i u (storage w) of
        (None, s') \<Rightarrow> w\<lparr>storage := s'\<rparr>
      | (Some d, s') \<Rightarrow> w\<lparr>storage := s', history := history w @ [(i, d)]\<rparr>)"

definition observations :: "string \<Rightarrow> world \<Rightarrow> download list" where
  "observations i w = map snd (filter (\<lambda>e. fst e = i) (history w))"

section \<open>Strategy executors (server/routes.ts)\<close>

text \<open>
  A synchronous call of the environment returns or throws; an awaited promise resolves,
  rejects or never settles. An executor is an \<open>async\<close> function returning
  \<open>Promise<boolean>\<close>.
\<close>

datatype 'a result = Throws | Value 'a

datatype 'a promise = Resolved 'a | Rejected | Unsettled

type_synonym outcome = "bool promise"

type_synonym strategy = "world \<Rightarrow> outcome \<times> world"

text \<open>The three object literals the executors and the pipeline pass to \<open>updateDownload\<close>.\<close>

definition status_progress :: "download_status \<Rightarrow> int \<Rightarrow> download_updates" where
  "status_progress st p = no_updates\<lparr>u_status := Some st, u_progress := Some (Some (Finite p))\<rparr>"

definition progress_only :: "number \<Rightarrow> download_updates" where
  "progress_only p = no_updates\<lparr>u_progress := Some (Some p)\<rparr>"

definition completed_at :: "string \<Rightarrow> download_updates" where
  "completed_at path = no_updates\<lparr>u_status := Some Completed,
     u_progress := Some (Some (Finite 100)), u_filePath := Some (Some path)\<rparr>"

text \<open>
  \<open>title.replace(/[^\w\s-]/g, '').replace(/\s+/g, '_')\<close> on ASCII text (the
  JavaScript class \<open>\s\<close> also holds U+00A0 and other spaces outside ASCII, which
  this model deletes instead), and \<open>path.join\<close> without its normalisation of dots
  and doubled separators. Only the presence of a path matters below, not its text.
\<close>

definition is_word_char :: "char \<Rightarrow> bool" where
  "is_word_char c =
     (c \<in> set ''abcdefghijklmnopqrstuvwxyzABCDEFGHIJKLMNOPQRSTUVWXYZ0123456789_'')"

definition is_space_char :: "char \<Rightarrow> bool" where
  "is_space_char c = (c \<in> set [CHR '' '', CHR 0x09, CHR 0x0A, CHR 0x0B, CHR 0x0C, CHR 0x0D])"

function underscore_spaces :: "string \<Rightarrow> string" where
  "underscore_spaces [] = []"
| "underscore_spaces (c # cs) =
     (if is_space_char c then CHR ''_'' # underscore_spaces (dropWhile is_space_char cs)
      else c # underscore_spaces cs)"
  by pat_completeness auto
termination
  by (relation "measure length") (auto simp: less_Suc_eq_le length_dropWhile_le)

definition sanitizeTitle :: "string \<Rightarrow> string" where
  "sanitizeTitle t =
     underscore_spaces (filter (\<lambda>c. is_word_char c \<or> is_space_char c \<or> c = CHR ''-'') t)"

fun path_join :: "string list \<Rightarrow> string" where
  "path_join [] = ''.''"
| "path_join [p] = p"
| "path_join (p # q # ps) = p @ ''/'' @ path_join (q # ps)"

text \<open>
  \<open>Math.round((downloaded / total) * 100)\<close> on byte counts, in exact arithmetic
  (\<open>Math.round\<close> rounds a half up); a zero total gives \<open>NaN\<close> or \<open>Infinity\<close>.
  The code rounds a double: where the exact value is a half, the double may lie just
  below it and the code's percentage is then one less (23 of 40 bytes: 57, here 58).
  The two agree whenever the quotient is exact, as for 8 of 8 bytes.
\<close>

definition progress_percent :: "nat \<Rightarrow> nat \<Rightarrow> number" where
  "progress_percent downloaded total' =
     (if total' = 0 then (if downloaded = 0 then NaN else Infinity)
      else Finite (int ((200 * downloaded + total') div (2 * total'))))"

subsection \<open>Suspension points and late progress events\<close>

text \<open>
  The listeners that \<open>tryYtdlCore\<close> registers are never removed, so its progress
  listener goes on writing after the promise has settled and the pipeline has moved
  on. The event loop runs such a call only where the program is suspended on a timer,
  a network call or a child process: \<open>suspend\<close> runs the next group of the queue.
  Awaiting the in-memory store resumes in the same turn and is no suspension point.
  \<open>drain\<close> runs what is left once the pipeline has ended or is blocked for good.
\<close>

definition run_late :: "late_write \<Rightarrow> world \<Rightarrow> world" where
  "run_late e w = storage_updateDownload (fst e) (progress_only (snd e)) w"

definition suspend :: "world \<Rightarrow> world" where
  "suspend w =
     (case eventQueue w of
        [] \<Rightarrow> w
      | batch # later \<Rightarrow> fold run_late batch (w\<lparr>eventQueue := later\<rparr>))"

definition drain :: "world \<Rightarrow> world" where
  "drain w = fold run_late (concat (eventQueue w)) (w\<lparr>eventQueue := []\<rparr>)"

fun merge_queues :: "late_write list list \<Rightarrow> late_write list list \<Rightarrow> late_write list list" where
  "merge_queues [] q = q"
| "merge_queues (a # p) [] = a # p"
| "merge_queues (a # p) (b # q) = (a @ b) # merge_queues p q"

definition enqueue :: "late_write list list \<Rightarrow> world \<Rightarrow> world" where
  "enqueue batches w = w\<lparr>eventQueue := merge_queues (eventQueue w) batches\<rparr>"

subsection \<open>Strategy 1: tryYtdlCore\<close>

text \<open>
  The environment of one attempt: what the calls into \<open>ytdl-core\<close> and \<open>fs\<close> do
  (\<open>chooseFormat\<close> yields the container of the chosen format, or a falsy value), and
  the events of the two streams:
  \<^item> \<open>progressEvents\<close>: the \<open>progress\<close> events (chunk length, downloaded, total)
    handled before the promise settles;
  \<^item> \<open>settling\<close>: the first of \<open>finish\<close> of the file, \<open>error\<close> of the download and
    \<open>error\<close> of the file, which settles the promise; \<open>None\<close> when none ever comes
    and the attempt hangs;
  \<^item> \<open>lateProgress\<close>: the \<open>progress\<close> events handled after that, grouped by
    suspension point.
  After the settling event a further \<open>error\<close> only calls \<open>resolve\<close> again, which does
  nothing. A \<open>finish\<close> after an \<open>error\<close> does not occur: \<open>pipe\<close> does not end the file
  when the download fails, and a file stream that has failed does not finish.
\<close>

datatype settle_event = Finish | StreamError | WriteError

record ytdl_core_env =
  validateURL :: "bool result"
  getInfo :: "unit promise"
  chooseFormat :: "string option result"
  openStreams :: "unit result"
  progressEvents :: "(nat \<times> nat \<times> nat) list"
  settling :: "settle_event option"
  lateProgress :: "(nat \<times> nat \<times> nat) list list"

fun ytdl_progress :: "string \<Rightarrow> (nat \<times> nat \<times> nat) list \<Rightarrow> world \<Rightarrow> world" where
  "ytdl_progress downloadId [] w = w"
| "ytdl_progress downloadId ((chunkLength, downloaded, total') # es) w =
     ytdl_progress downloadId es
       (storage_updateDownload downloadId (progress_only (progress_percent downloaded total'))
          (suspend w))"

definition late_writes :: "string \<Rightarrow> (nat \<times> nat \<times> nat) list list \<Rightarrow> late_write list list" where
  "late_writes downloadId batches =
     map (map (\<lambda>(chunkLength, downloaded, total').
                 (downloadId, progress_percent downloaded total'))) batches"

definition ytdl_stream :: "string \<Rightarrow> string \<Rightarrow> ytdl_core_env \<Rightarrow> world \<Rightarrow> outcome \<times> world" where
  "ytdl_stream downloadId outputPath env w =
     (let w2 = ytdl_progress downloadId (progressEvents env) w;
          late = late_writes downloadId (lateProgress env)
      in case settling env of
           None \<Rightarrow> (Unsettled, w2)
         | Some Finish \<Rightarrow>
             (Resolved True,
              enqueue late
                (storage_updateDownload downloadId (completed_at outputPath) (suspend w2)))
         | Some StreamError \<Rightarrow> (Resolved False, enqueue late (suspend w2))
         | Some WriteError \<Rightarrow> (Resolved False, enqueue late (suspend w2)))"

definition tryYtdlCore ::
  "ytdl_core_env \<Rightarrow> string \<Rightarrow> string \<Rightarrow> string \<Rightarrow> string \<Rightarrow> string \<Rightarrow> strategy" where
  "tryYtdlCore env cwd downloadId url fmt ttl w =
     (case validateURL env of
        Throws \<Rightarrow> (Resolved False, w)
      | Value valid \<Rightarrow>
          if \<not> valid then (Resolved False, w)
          else
            (let w1 = storage_updateDownload downloadId (status_progress Downloading 10) w in
             case getInfo env of
               Rejected \<Rightarrow> (Resolved False, suspend w1)
             | Unsettled \<Rightarrow> (Unsettled, w1)
             | Resolved info \<Rightarrow>
                 (let w2 = suspend w1 in
                  case chooseFormat env of
                    Throws \<Rightarrow> (Resolved False, w2)
                  | Value None \<Rightarrow> (Resolved False, w2)
                  | Value (Some container) \<Rightarrow>
                      (let sanitizedTitle = sanitizeTitle ttl;
                           outputPath = path_join [cwd, ''downloads'', sanitizedTitle @ ''.'' @ container]
                       in case openStreams env of
                            Throws \<Rightarrow> (Resolved False, w2)
                          | Value streams \<Rightarrow> ytdl_stream downloadId outputPath env w2))))"

subsection \<open>Strategy 2: tryYoutubeDlExec\<close>

record youtube_dl_exec_env =
  youtubedl :: "unit promise"
  readdirSync :: "string list result"

definition matching_files :: "string \<Rightarrow> string list \<Rightarrow> string list" where
  "matching_files sanitizedTitle listing =
     filter (\<lambda>f. startsWith f sanitizedTitle \<and> \<not> startsWith f ''.'') listing"

definition tryYoutubeDlExec ::
  "youtube_dl_exec_env \<Rightarrow> string \<Rightarrow> string \<Rightarrow> string \<Rightarrow> string \<Rightarrow> string \<Rightarrow> strategy" where
  "tryYoutubeDlExec env cwd downloadId url fmt ttl w =
     (let w1 = storage_updateDownload downloadId (status_progress Downloading 20) w;
          sanitizedTitle = sanitizeTitle ttl
      in case youtubedl env of
           Rejected \<Rightarrow> (Resolved False, suspend w1)
         | Unsettled \<Rightarrow> (Unsettled, w1)
         | Resolved done \<Rightarrow>
             (let w2 = suspend w1;
                  outputDir = path_join [cwd, ''downloads'']
              in case readdirSync env of
                   Throws \<Rightarrow> (Resolved False, w2)
                 | Value listing \<Rightarrow>
                     (case matching_files sanitizedTitle listing of
                        [] \<Rightarrow> (Resolved False, w2)
                      | f # fs \<Rightarrow>
                          (Resolved True,
                           storage_updateDownload downloadId
                             (completed_at (path_join [outputDir, f])) w2))))"

subsection \<open>Strategy 3: tryEnhancedYtDlp\<close>

text \<open>
  \<open>spawn\<close> runs inside the executor of the returned promise, and so do the handlers
  of the child's events; the \<open>try\<close> block has ended by then. \<open>Close\<close> carries the
  exit code (\<open>null\<close> after a signal); \<open>closeReaddirSync\<close> is what \<open>readdirSync\<close>
  does inside the \<open>close\<close> handler. The program is suspended until each event comes.
\<close>

datatype process_event = Close "int option" | ProcessError

record yt_dlp_env =
  spawn :: "unit result"
  processEvents :: "process_event list"
  closeReaddirSync :: "string list result"

text \<open>
  \<open>child_process.spawn\<close> checks its arguments before it starts the child: a NUL
  character in the file name or in an argument throws \<open>ERR_INVALID_ARG_VALUE\<close>
  synchronously. Otherwise the environment says whether the call throws.
\<close>

definition nodeSpawn :: "unit result \<Rightarrow> string \<Rightarrow> string list \<Rightarrow> unit result" where
  "nodeSpawn launched file args =
     (if CHR 0x00 \<in> set file \<or> (\<exists>a \<in> set args. CHR 0x00 \<in> set a) then Throws else launched)"

fun ytdlp_events ::
  "string \<Rightarrow> string \<Rightarrow> string \<Rightarrow> string list result \<Rightarrow> process_event list \<Rightarrow> world
     \<Rightarrow> outcome \<times> world" where
  "ytdlp_events downloadId outputDir sanitizedTitle rd [] w = (Unsettled, w)"
| "ytdlp_events downloadId outputDir sanitizedTitle rd (Close code # es) w =
     (if code = Some 0
      then (case rd of
              Throws \<Rightarrow> ytdlp_events downloadId outputDir sanitizedTitle rd es (suspend w)
            | Value listing \<Rightarrow>
                (case matching_files sanitizedTitle listing of
                   [] \<Rightarrow> (Resolved False, suspend w)
                 | f # fs \<Rightarrow>
                     (Resolved True,
                      storage_updateDownload downloadId
                        (completed_at (path_join [outputDir, f])) (suspend w))))
      else (Resolved False, suspend w))"
| "ytdlp_events downloadId outputDir sanitizedTitle rd (ProcessError # es) w =
     (Resolved False, suspend w)"

definition tryEnhancedYtDlp ::
  "yt_dlp_env \<Rightarrow> string \<Rightarrow> string \<Rightarrow> string \<Rightarrow> string \<Rightarrow> string \<Rightarrow> strategy" where
  "tryEnhancedYtDlp env cwd downloadId url fmt ttl w =
     (let w1 = storage_updateDownload downloadId (status_progress Downloading 30) w;
          sanitizedTitle = sanitizeTitle ttl;
          outputPath = path_join [cwd, ''downloads'', sanitizedTitle @ ''.%(ext)s''];
          args = [''--output'', outputPath,
                  ''--format'', ''worst[ext=mp4]/worst/bestaudio'',
                  ''--no-warnings'',
                  ''--user-agent'',
                  ''Mozilla/5.0 (compatible; Googlebot/2.1; +http://www.google.com/bot.html)'',
                  ''--extractor-args'', ''youtube:player_client=android,web_creator'',
                  url]
      in case nodeSpawn (spawn env) ''yt-dlp'' args of
           Throws \<Rightarrow> (Rejected, w1)
         | Value ytdlp \<Rightarrow>
             ytdlp_events downloadId (path_join [cwd, ''downloads'']) sanitizedTitle
               (closeReaddirSync env) (processEvents env) w1)"

section \<open>The strategy pipeline (downloadWithMultipleStrategies)\<close>

text \<open>
  What the pipeline itself does besides writing to the store: each invocation of a
  strategy with the way its promise settled, and each \<open>setTimeout\<close> wait with its
  milliseconds.
\<close>

datatype pipeline_event = Invoked nat outcome | Delayed nat

datatype loop_exit = Returned | Exhausted | Blocked

text \<open>
  The \<open>for\<close> loop from index \<open>i\<close>. \<open>await\<close> inside \<open>try\<close> turns a rejection into the
  \<open>catch\<close> branch, which only logs; a promise that never settles blocks the loop.
  The wait of 2000 ms is a suspension point.
\<close>

function strategy_loop ::
  "strategy list \<Rightarrow> nat \<Rightarrow> world \<Rightarrow> loop_exit \<times> pipeline_event list \<times> world" where
  "strategy_loop strategies i w =
     (if i < length strategies then
        (let r = (strategies ! i) w; success = fst r; w' = snd r in
         if success = Resolved True then (Returned, [Invoked i success], w')
         else if success = Unsettled then (Blocked, [Invoked i success], w')
         else
           (let wait = (if i < length strategies - 1 then [Delayed 2000] else []);
                w'' = (if i < length strategies - 1 then suspend w' else w');
                rest = strategy_loop strategies (Suc i) w''
            in (fst rest, Invoked i success # wait @ fst (snd rest), snd (snd rest))))
      else (Exhausted, [], w))"
  by pat_completeness auto
termination
  by (relation "measure (\<lambda>(strategies, i, w). length strategies - i)") auto

declare strategy_loop.simps [simp del]

record run =
  finished :: bool
  trace :: "pipeline_event list"
  final :: world

text \<open>
  The body of \<open>downloadWithMultipleStrategies\<close> over a list of strategies.
  \<open>dirExists\<close> and \<open>mkdirSync\<close> are the file system's answers for the output
  directory; a throwing \<open>mkdirSync\<close> is the one way into the outer \<open>catch\<close>.
\<close>

definition downloadWithStrategies ::
  "strategy list \<Rightarrow> bool \<Rightarrow> unit result \<Rightarrow> string \<Rightarrow> world \<Rightarrow> run" where
  "downloadWithStrategies strategies dirExists mkdirSync downloadId w =
     (let w1 = storage_updateDownload downloadId (status_progress Downloading 0) w in
      if \<not> dirExists \<and> mkdirSync = Throws
      then \<lparr>finished = True, trace = [],
            final = storage_updateDownload downloadId (status_progress Failed 0) w1\<rparr>
      else
        (case strategy_loop strategies 0 w1 of
           (Returned, tr, w2) \<Rightarrow> \<lparr>finished = True, trace = tr, final = w2\<rparr>
         | (Blocked, tr, w2) \<Rightarrow> \<lparr>finished = False, trace = tr, final = w2\<rparr>
         | (Exhausted, tr, w2) \<Rightarrow>
             \<lparr>finished = True, trace = tr,
              final = storage_updateDownload downloadId (status_progress Failed 0) w2\<rparr>))"

record pipeline_env =
  cwd :: string
  dirExists :: bool
  mkdirSync :: "unit result"
  ytdlCore :: ytdl_core_env
  youtubeDlExec :: youtube_dl_exec_env
  ytDlp :: yt_dlp_env

definition strategies_of ::
  "pipeline_env \<Rightarrow> string \<Rightarrow> string \<Rightarrow> string \<Rightarrow> string \<Rightarrow> strategy list" where
  "strategies_of env downloadId url fmt ttl =
     [tryYtdlCore (ytdlCore env) (cwd env) downloadId url fmt ttl,
      tryYoutubeDlExec (youtubeDlExec env) (cwd env) downloadId url fmt ttl,
      tryEnhancedYtDlp (ytDlp env) (cwd env) downloadId url fmt ttl]"

definition downloadWithMultipleStrategies ::
  "pipeline_env \<Rightarrow> string \<Rightarrow> string \<Rightarrow> string \<Rightarrow> string \<Rightarrow> world \<Rightarrow> run" where
  "downloadWithMultipleStrategies env downloadId url fmt ttl w =
     downloadWithStrategies (strategies_of env downloadId url fmt ttl)
       (dirExists env) (mkdirSync env) downloadId w"

text \<open>
  The life of one job: \<open>POST /api/download\<close> creates the record of a parsed body and
  starts the pipeline on it with the record's id, the url, \<open>format || "mp4"\<close> and the
  title (\<open>launched\<close>); after the pipeline has ended, or is blocked, the progress
  events still queued are handled (\<open>afterwards\<close>). \<open>final\<close> of the result is the
  store after all that.
\<close>

definition launched :: "pipeline_env \<Rightarrow> insertDownload \<Rightarrow> download \<times> world \<Rightarrow> run" where
  "launched env downloadData created =
     downloadWithMultipleStrategies env (id' (fst created)) (youtubeUrl downloadData)
       (format_or_mp4 (format downloadData)) (title downloadData) (snd created)"

definition afterwards :: "run \<Rightarrow> run" where
  "afterwards r = \<lparr>finished = finished r, trace = trace r, final = drain (final r)\<rparr>"

definition job_lifecycle ::
  "insertDownload \<Rightarrow> string \<Rightarrow> int \<Rightarrow> pipeline_env \<Rightarrow> MemStorage \<Rightarrow> run" where
  "job_lifecycle downloadData uuid now env s =
     afterwards
       (launched env downloadData
          (storage_createDownload downloadData uuid now
             \<lparr>storage = s, history = [], eventQueue = []\<rparr>))"

section \<open>Example inputs\<close>

definition example_data :: insertDownload where
  "example_data = \<lparr>youtubeUrl = ''https://youtu.be/abc'', title = ''My clip'', duration = None,
     thumbnail = None, channel = None, views = None, publishDate = None, format = Some ''mp4''\<rparr>"

definition example_body :: json where
  "example_body = JObject [(''youtubeUrl'', JString ''https://youtu.be/abc''),
     (''title'', JString ''My clip''), (''format'', JString ''mp4'')]"

definition empty_store :: MemStorage where
  "empty_store = \<lparr>users = Map.empty, downloads = Map.empty\<rparr>"

definition example_store :: MemStorage where
  "example_store = snd (createDownload example_data ''job-1'' 1000 empty_store)"

section \<open>Reading a run\<close>

text \<open>
  The store as the strategy at index \<open>j\<close> finds it when every strategy before it has
  been invoked in turn from \<open>w\<close>, each followed by the loop's wait, and what that
  strategy then does.
\<close>

primrec world_at :: "strategy list \<Rightarrow> world \<Rightarrow> nat \<Rightarrow> world" where
  "world_at strategies w 0 = w"
| "world_at strategies w (Suc j) =
     (let w' = snd ((strategies ! j) (world_at strategies w j))
      in if j < length strategies - 1 then suspend w' else w')"

definition attempt :: "strategy list \<Rightarrow> world \<Rightarrow> nat \<Rightarrow> outcome \<times> world" where
  "attempt strategies w j = (strategies ! j) (world_at strategies w j)"

fun invocations :: "pipeline_event list \<Rightarrow> nat list" where
  "invocations [] = []"
| "invocations (Invoked i out # es) = i # invocations es"
| "invocations (Delayed ms # es) = invocations es"

fun delays :: "pipeline_event list \<Rightarrow> nat list" where
  "delays [] = []"
| "delays (Invoked i out # es) = delays es"
| "delays (Delayed ms # es) = ms # delays es"

section \<open>Properties of the observed records\<close>

text \<open>
  The claimed status edges, and a step of the status as the server makes it: the status
  is written again unchanged, or it changes from pending to downloading, or from
  downloading to completed or failed.
\<close>

definition status_edge :: "download_status \<Rightarrow> download_status \<Rightarrow> bool" where
  "status_edge a b =
     ((a = Pending \<and> b = Downloading)
      \<or> (a = Downloading \<and> (b = Downloading \<or> b = Completed \<or> b = Failed)))"

definition status_step :: "download_status \<Rightarrow> download_status \<Rightarrow> bool" where
  "status_step a b =
     (a = b \<or> (a = Pending \<and> b = Downloading)
      \<or> (a = Downloading \<and> (b = Completed \<or> b = Failed)))"

definition path_iff_completed :: "download \<Rightarrow> bool" where
  "path_iff_completed d = ((filePath d \<noteq> None) = (status d = Completed))"

definition progress_100_iff_completed :: "download \<Rightarrow> bool" where
  "progress_100_iff_completed d = ((progress d = Some (Finite 100)) = (status d = Completed))"

definition completed_has_100 :: "download \<Rightarrow> bool" where
  "completed_has_100 d = (status d = Completed \<longrightarrow> progress d = Some (Finite 100))"

definition lawful :: "download list \<Rightarrow> bool" where
  "lawful os =
     (successively status_step (map status os) \<and> list_all path_iff_completed os)"

text \<open>
  The job \<open>i\<close> has been observed, its stored record is the last observation and has
  status \<open>st\<close>, and all its observations so far are lawful. With \<open>quiet\<close>, moreover,
  no progress event is queued and every completed observation has progress 100.
\<close>

definition job_at :: "bool \<Rightarrow> download_status \<Rightarrow> string \<Rightarrow> world \<Rightarrow> bool" where
  "job_at quiet st i w =
     (observations i w \<noteq> [] \<and> downloads (storage w) i = Some (last (observations i w))
      \<and> status (last (observations i w)) = st \<and> lawful (observations i w)
      \<and> (quiet \<longrightarrow> eventQueue w = [] \<and> list_all completed_has_100 (observations i w)))"

text \<open>
  What the pipeline relies on in a strategy for job \<open>i\<close>: started on a downloading
  job it leaves the job completed when it resolves to true and downloading otherwise.
\<close>

definition behaved :: "bool \<Rightarrow> string \<Rightarrow> strategy \<Rightarrow> bool" where
  "behaved quiet i f =
     (\<forall>w. job_at quiet Downloading i w \<longrightarrow>
        (if fst (f w) = Resolved True then job_at quiet Completed i (snd (f w))
         else job_at quiet Downloading i (snd (f w))))"


section \<open>Example environments\<close>

definition example_world :: world where
  "example_world =
     snd (storage_createDownload example_data ''job-1'' 1000
            \<lparr>storage = empty_store, history = [], eventQueue = []\<rparr>)"

definition ytdl_downloads :: ytdl_core_env where
  "ytdl_downloads = \<lparr>validateURL = Value True, getInfo = Resolved (),
     chooseFormat = Value (Some ''mp4''), openStreams = Value (),
     progressEvents = [(4, 4, 8), (4, 8, 8)], settling = Some Finish, lateProgress = []\<rparr>"

definition ytdl_invalid_url :: ytdl_core_env where
  "ytdl_invalid_url = \<lparr>validateURL = Value False, getInfo = Rejected, chooseFormat = Throws,
     openStreams = Throws, progressEvents = [], settling = None, lateProgress = []\<rparr>"

definition ytdl_write_error :: ytdl_core_env where
  "ytdl_write_error = \<lparr>validateURL = Value True, getInfo = Resolved (),
     chooseFormat = Value (Some ''mp4''), openStreams = Value (),
     progressEvents = [(2, 2, 8)], settling = Some WriteError,
     lateProgress = [[], [], [(2, 4, 8)]]\<rparr>"

definition exec_succeeds :: youtube_dl_exec_env where
  "exec_succeeds = \<lparr>youtubedl = Resolved (), readdirSync = Value [''My_clip.mp4'']\<rparr>"

definition exec_fails :: youtube_dl_exec_env where
  "exec_fails = \<lparr>youtubedl = Rejected, readdirSync = Value []\<rparr>"

definition ytdlp_succeeds :: yt_dlp_env where
  "ytdlp_succeeds = \<lparr>spawn = Value (), processEvents = [Close (Some 0)],
     closeReaddirSync = Value [''My_clip.mp4'']\<rparr>"


definition env_first_succeeds :: pipeline_env where
  "env_first_succeeds = \<lparr>cwd = ''/app'', dirExists = True, mkdirSync = Value (),
     ytdlCore = ytdl_downloads, youtubeDlExec = exec_fails, ytDlp = ytdlp_succeeds\<rparr>"

definition env_third_succeeds :: pipeline_env where
  "env_third_succeeds = \<lparr>cwd = ''/app'', dirExists = False, mkdirSync = Value (),
     ytdlCore = ytdl_invalid_url, youtubeDlExec = exec_fails, ytDlp = ytdlp_succeeds\<rparr>"

definition env_late_progress :: pipeline_env where
  "env_late_progress = \<lparr>cwd = ''/app'', dirExists = True, mkdirSync = Value (),
     ytdlCore = ytdl_write_error, youtubeDlExec = exec_succeeds, ytDlp = ytdlp_succeeds\<rparr>"

definition completed_store :: MemStorage where
  "completed_store =
     snd (updateDownload ''job-1'' (completed_at ''/app/downloads/My_clip.mp4'') example_store)"


definition unchecked_body :: json where
  "unchecked_body = JObject [(''youtubeUrl'', JString ''not a url''), (''title'', JString ''t''),
     (''format'', JString ''no such format'')]"

definition url_with_nul :: string where
  "url_with_nul = ''https://youtu.be/abc'' @ [CHR 0x00]"

definition ytdlp_readdir_throws :: yt_dlp_env where
  "ytdlp_readdir_throws = \<lparr>spawn = Value (), processEvents = [Close (Some 0)],
     closeReaddirSync = Throws\<rparr>"

definition body_without_url :: json where
  "body_without_url = JObject [(''title'', JString ''t''), (''format'', JString ''mp4'')]"

section \<open>The record store\<close>

text \<open>
  C10. \<open>updateDownload i updates\<close> leaves every record stored under another id and the
  users untouched; in the target record a field keeps its old value unless \<open>updates\<close>
  names it, in which case it takes the named value; the updated record is the one
  returned and stored. When no record is stored under \<open>i\<close> the result is \<open>undefined\<close>
  and the store is the same store. No record is created or deleted.
\<close>

theorem updateDownload_frame:
  "(downloads s i = None \<longrightarrow> updateDownload i u s = (None, s))
   \<and> (\<forall>d. downloads s i = Some d \<longrightarrow>
        (\<exists>d'. fst (updateDownload i u s) = Some d'
           \<and> downloads (snd (updateDownload i u s)) i = Some d'
           \<and> (case u_youtubeUrl u of None \<Rightarrow> youtubeUrl d' = youtubeUrl d | Some v \<Rightarrow> youtubeUrl d' = v)
           \<and> (case u_title u of None \<Rightarrow> title d' = title d | Some v \<Rightarrow> title d' = v)
           \<and> (case u_duration u of None \<Rightarrow> duration d' = duration d | Some v \<Rightarrow> duration d' = v)
           \<and> (case u_thumbnail u of None \<Rightarrow> thumbnail d' = thumbnail d | Some v \<Rightarrow> thumbnail d' = v)
           \<and> (case u_channel u of None \<Rightarrow> channel d' = channel d | Some v \<Rightarrow> channel d' = v)
           \<and> (case u_views u of None \<Rightarrow> views d' = views d | Some v \<Rightarrow> views d' = v)
           \<and> (case u_publishDate u of None \<Rightarrow> publishDate d' = publishDate d
                | Some v \<Rightarrow> publishDate d' = v)
           \<and> (case u_format u of None \<Rightarrow> format d' = format d | Some v \<Rightarrow> format d' = v)
           \<and> (case u_id u of None \<Rightarrow> id' d' = id' d | Some v \<Rightarrow> id' d' = v)
           \<and> (case u_status u of None \<Rightarrow> status d' = status d | Some v \<Rightarrow> status d' = v)
           \<and> (case u_progress u of None \<Rightarrow> progress d' = progress d | Some v \<Rightarrow> progress d' = v)
           \<and> (case u_filePath u of None \<Rightarrow> filePath d' = filePath d | Some v \<Rightarrow> filePath d' = v)
           \<and> (case u_createdAt u of None \<Rightarrow> createdAt d' = createdAt d
                | Some v \<Rightarrow> createdAt d' = v)))
   \<and> (\<forall>j. j \<noteq> i \<longrightarrow> downloads (snd (updateDownload i u s)) j = downloads s j)
   \<and> dom (downloads (snd (updateDownload i u s))) = dom (downloads s)
   \<and> users (snd (updateDownload i u s)) = users s"
proof (cases "downloads s i")
  case None
  then show ?thesis by (simp add: updateDownload_def)
next
  case (Some d)
  have r: "updateDownload i u s
             = (Some (spread d u), s\<lparr>downloads := (downloads s)(i \<mapsto> spread d u)\<rparr>)"
    using Some by (simp add: updateDownload_def Let_def)
  have f:
    "(case u_youtubeUrl u of None \<Rightarrow> youtubeUrl (spread d u) = youtubeUrl d
      | Some v \<Rightarrow> youtubeUrl (spread d u) = v)"
    "(case u_title u of None \<Rightarrow> title (spread d u) = title d | Some v \<Rightarrow> title (spread d u) = v)"
    "(case u_duration u of None \<Rightarrow> duration (spread d u) = duration d
      | Some v \<Rightarrow> duration (spread d u) = v)"
    "(case u_thumbnail u of None \<Rightarrow> thumbnail (spread d u) = thumbnail d
      | Some v \<Rightarrow> thumbnail (spread d u) = v)"
    "(case u_channel u of None \<Rightarrow> channel (spread d u) = channel d
      | Some v \<Rightarrow> channel (spread d u) = v)"
    "(case u_views u of None \<Rightarrow> views (spread d u) = views d | Some v \<Rightarrow> views (spread d u) = v)"
    "(case u_publishDate u of None \<Rightarrow> publishDate (spread d u) = publishDate d
      | Some v \<Rightarrow> publishDate (spread d u) = v)"
    "(case u_format u of None \<Rightarrow> format (spread d u) = format d
      | Some v \<Rightarrow> format (spread d u) = v)"
    "(case u_id u of None \<Rightarrow> id' (spread d u) = id' d | Some v \<Rightarrow> id' (spread d u) = v)"
    "(case u_status u of None \<Rightarrow> status (spread d u) = status d
      | Some v \<Rightarrow> status (spread d u) = v)"
    "(case u_progress u of None \<Rightarrow> progress (spread d u) = progress d
      | Some v \<Rightarrow> progress (spread d u) = v)"
    "(case u_filePath u of None \<Rightarrow> filePath (spread d u) = filePath d
      | Some v \<Rightarrow> filePath (spread d u) = v)"
    "(case u_createdAt u of None \<Rightarrow> createdAt (spread d u) = createdAt d
      | Some v \<Rightarrow> createdAt (spread d u) = v)"
    by (simp_all add: spread_def override_def split: option.split)
  have g: "dom (downloads (snd (updateDownload i u s))) = dom (downloads s)"
    using Some by (auto simp: r)
  show ?thesis
    unfolding r using Some f g[unfolded r] by simp
qed

theorem updateDownload_frame_witness:
  "downloads example_store ''job-1'' \<noteq> None
   \<and> downloads example_store ''job-2'' = None
   \<and> map_option status
        (fst (updateDownload ''job-1'' (status_progress Downloading 10) example_store))
       = Some Downloading
   \<and> map_option title
        (fst (updateDownload ''job-1'' (status_progress Downloading 10) example_store))
       = Some ''My clip''
   \<and> updateDownload ''job-2'' (status_progress Downloading 10) example_store
       = (None, example_store)"
  using updateDownload_frame [of example_store "''job-1''" "status_progress Downloading 10"]
    updateDownload_frame [of example_store "''job-2''" "status_progress Downloading 10"]
  by (auto simp: example_store_def empty_store_def example_data_def createDownload_def
      status_progress_def no_updates_def Let_def)

section \<open>Submission and file retrieval\<close>

lemma example_body_parse: "insertDownloadSchema_parse example_body = Some example_data"
  by (simp add: insertDownloadSchema_parse_def example_body_def example_data_def member_def
      z_string_def z_string_optional_def z_string_nullable_optional_def)

text \<open>
  C9. For a body the schema accepts, \<open>POST /api/download\<close> first responds with the
  record it has just created (status pending, progress 0, no file path, the id and
  the creation time assigned by \<open>createDownload\<close>, the submitted fields copied, stored
  under its id) and only then starts the pipeline for that id. The response does not
  depend on anything the pipeline does: the handler takes no pipeline environment.
\<close>

theorem post_download_valid:
  assumes "insertDownloadSchema_parse body = Some downloadData"
  shows "\<exists>download s'.
     post_download body uuid now s =
       ([Respond (OkDownload download),
         Launch uuid (youtubeUrl downloadData) (format_or_mp4 (format downloadData))
           (title downloadData)], s')
     \<and> status download = Pending \<and> progress download = Some (Finite 0)
     \<and> filePath download = None
     \<and> id' download = uuid \<and> createdAt download = Some now
     \<and> youtubeUrl download = youtubeUrl downloadData \<and> title download = title downloadData
     \<and> format download = format downloadData
     \<and> downloads s' uuid = Some download
     \<and> (\<forall>j. j \<noteq> uuid \<longrightarrow> downloads s' j = downloads s j)"
  using assms by (simp add: post_download_def createDownload_def Let_def)

theorem post_download_valid_witness:
  "insertDownloadSchema_parse example_body = Some example_data
   \<and> (\<exists>download s'. post_download example_body ''job-1'' 1000 empty_store =
         ([Respond (OkDownload download),
           Launch ''job-1'' ''https://youtu.be/abc'' ''mp4'' ''My clip''], s')
       \<and> status download = Pending \<and> progress download = Some (Finite 0)
       \<and> filePath download = None)"
  using post_download_valid [OF example_body_parse, of "''job-1''" 1000 empty_store]
  by (auto simp: example_body_parse example_data_def format_or_mp4_def)

text \<open>
  C8. For a job whose record is not completed, \<open>GET /api/download/:id/file\<close> answers
  Not-Found whatever the file system holds; it streams a file exactly when the record
  exists, is completed, has a non-empty recorded path, and that path exists on disk.
\<close>

theorem get_download_file_not_completed:
  "(\<forall>d. getDownload i s = Some d \<longrightarrow> status d \<noteq> Completed \<longrightarrow>
        get_download_file existsSync i s = NotFound ''File not found or download not completed'')
   \<and> (\<forall>p. get_download_file existsSync i s = FileStream p \<longleftrightarrow>
        (\<exists>d. getDownload i s = Some d \<and> status d = Completed \<and> filePath d = Some p
             \<and> p \<noteq> [] \<and> existsSync p))"
  by (auto simp: get_download_file_def split: option.splits)

theorem get_download_file_not_completed_witness:
  "getDownload ''job-1'' example_store \<noteq> None
   \<and> get_download_file (\<lambda>p. True) ''job-1'' example_store
       = NotFound ''File not found or download not completed''
   \<and> get_download_file (\<lambda>p. True) ''job-1''
        (snd (updateDownload ''job-1'' (completed_at ''/app/downloads/My_clip.mp4'')
           example_store))
       = FileStream ''/app/downloads/My_clip.mp4''"
  using get_download_file_not_completed [of "''job-1''" example_store "\<lambda>p. True"]
    get_download_file_not_completed [of "''job-1''"
      "snd (updateDownload ''job-1'' (completed_at ''/app/downloads/My_clip.mp4'')
         example_store)" "\<lambda>p. True"]
  by (auto simp: example_store_def empty_store_def example_data_def createDownload_def
      getDownload_def updateDownload_def spread_def override_def completed_at_def
      no_updates_def Let_def)

text \<open>
  C7, as the code has it. \<open>POST /api/download\<close> validates the body against
  \<open>insertDownloadSchema\<close> and nothing else: it answers 400, creates no record and
  starts no pipeline exactly when that schema rejects the body, which is when the body
  is not an object, \<open>youtubeUrl\<close> or \<open>title\<close> is not a string, one of the optional
  text fields is neither a string nor null, or \<open>format\<close> is present and not a string.
  The url is not parsed and no site pattern is applied at submission.
\<close>

theorem post_download_rejects:
  "(post_download body uuid now s = ([Respond BadRequest], s))
     = (insertDownloadSchema_parse body = None)
   \<and> (insertDownloadSchema_parse body = None)
     = (case body of
          JObject kvs \<Rightarrow>
            z_string (member kvs ''youtubeUrl'') = None
            \<or> z_string (member kvs ''title'') = None
            \<or> z_string_nullable_optional (member kvs ''duration'') = None
            \<or> z_string_nullable_optional (member kvs ''thumbnail'') = None
            \<or> z_string_nullable_optional (member kvs ''channel'') = None
            \<or> z_string_nullable_optional (member kvs ''views'') = None
            \<or> z_string_nullable_optional (member kvs ''publishDate'') = None
            \<or> z_string_optional (member kvs ''format'') = None
        | _ \<Rightarrow> True)"
proof -
  have a: "(post_download body uuid now s = ([Respond BadRequest], s))
             = (insertDownloadSchema_parse body = None)"
    by (cases "insertDownloadSchema_parse body")
       (simp_all add: post_download_def createDownload_def Let_def)
  have b: "(insertDownloadSchema_parse body = None)
     = (case body of
          JObject kvs \<Rightarrow>
            z_string (member kvs ''youtubeUrl'') = None
            \<or> z_string (member kvs ''title'') = None
            \<or> z_string_nullable_optional (member kvs ''duration'') = None
            \<or> z_string_nullable_optional (member kvs ''thumbnail'') = None
            \<or> z_string_nullable_optional (member kvs ''channel'') = None
            \<or> z_string_nullable_optional (member kvs ''views'') = None
            \<or> z_string_nullable_optional (member kvs ''publishDate'') = None
            \<or> z_string_optional (member kvs ''format'') = None
        | _ \<Rightarrow> True)"
    by (cases body) (simp_all add: insertDownloadSchema_parse_def bind_eq_None_conv)
  show ?thesis using a b by simp
qed

theorem post_download_rejects_witness:
  "insertDownloadSchema_parse body_without_url = None
   \<and> post_download body_without_url ''job-1'' 1000 empty_store
       = ([Respond BadRequest], empty_store)"
proof -
  have n: "insertDownloadSchema_parse body_without_url = None"
    by (simp add: insertDownloadSchema_parse_def body_without_url_def member_def z_string_def)
  show ?thesis
    using post_download_rejects [of body_without_url "''job-1''" 1000 empty_store] n by simp
qed

text \<open>
  C7 as stated fails: a \<open>youtubeUrl\<close> that is no URL and matches no source site, with
  a format the downloader does not know, is accepted, and its record is created.
\<close>

theorem post_download_unchecked_url:
  "\<not> acceptedSourceSite ''not a url''
   \<and> fst (post_download unchecked_body ''job-1'' 1000 empty_store)
       = [Respond (OkDownload
            \<lparr>youtubeUrl = ''not a url'', title = ''t'', duration = None, thumbnail = None,
             channel = None, views = None, publishDate = None, format = Some ''no such format'',
             id' = ''job-1'', status = Pending, progress = Some (Finite 0), filePath = None,
             createdAt = Some 1000\<rparr>),
          Launch ''job-1'' ''not a url'' ''no such format'' ''t'']
   \<and> map_option youtubeUrl
        (downloads (snd (post_download unchecked_body ''job-1'' 1000 empty_store)) ''job-1'')
       = Some ''not a url''"
  by code_simp

section \<open>Writes of the pipeline to the store\<close>

lemma storage_updateDownload_found:
  assumes "downloads (storage w) i = Some d"
  shows "storage (storage_updateDownload i u w)
           = (storage w)\<lparr>downloads := (downloads (storage w))(i \<mapsto> spread d u)\<rparr>"
    and "history (storage_updateDownload i u w) = history w @ [(i, spread d u)]"
  using assms by (simp_all add: storage_updateDownload_def updateDownload_def Let_def)

lemma storage_updateDownload_missing:
  assumes "downloads (storage w) i = None"
  shows "storage_updateDownload i u w = w"
  using assms by (simp add: storage_updateDownload_def updateDownload_def)

lemma storage_updateDownload_queue [simp]:
  "eventQueue (storage_updateDownload i u w) = eventQueue w"
  by (cases "downloads (storage w) i")
     (simp_all add: storage_updateDownload_def updateDownload_def Let_def)

lemma storage_updateDownload_dom:
  "dom (downloads (storage (storage_updateDownload i u w))) = dom (downloads (storage w))"
proof (cases "downloads (storage w) i")
  case None
  then show ?thesis by (simp add: storage_updateDownload_missing)
next
  case (Some d)
  then show ?thesis by (auto simp: storage_updateDownload_found)
qed

lemma observations_update:
  assumes "downloads (storage w) i = Some d"
  shows "observations i (storage_updateDownload i u w) = observations i w @ [spread d u]"
  using assms by (simp add: observations_def storage_updateDownload_found)

lemma update_other_job:
  assumes "j \<noteq> i"
  shows "observations i (storage_updateDownload j u w) = observations i w"
    and "downloads (storage (storage_updateDownload j u w)) i = downloads (storage w) i"
proof -
  show "observations i (storage_updateDownload j u w) = observations i w"
    using assms
    by (cases "downloads (storage w) j")
       (simp_all add: storage_updateDownload_missing observations_def
          storage_updateDownload_found)
  show "downloads (storage (storage_updateDownload j u w)) i = downloads (storage w) i"
    using assms
    by (cases "downloads (storage w) j")
       (simp_all add: storage_updateDownload_missing storage_updateDownload_found)
qed

lemma lawful_snoc:
  assumes "lawful os" and "os \<noteq> []" and "status_step (status (last os)) (status d)"
    and "path_iff_completed d"
  shows "lawful (os @ [d])"
  using assms by (simp add: lawful_def successively_append_iff last_map)

lemma job_at_update:
  assumes "job_at q st i w"
    and "status_step st (status (spread (last (observations i w)) u))"
    and "path_iff_completed (spread (last (observations i w)) u)"
    and "q \<longrightarrow> completed_has_100 (spread (last (observations i w)) u)"
  shows "job_at q (status (spread (last (observations i w)) u)) i (storage_updateDownload i u w)"
proof -
  let ?d = "last (observations i w)"
  have st: "downloads (storage w) i = Some ?d" "observations i w \<noteq> []" "status ?d = st"
    "lawful (observations i w)"
    and qq: "q \<longrightarrow> eventQueue w = [] \<and> list_all completed_has_100 (observations i w)"
    using assms(1) by (simp_all add: job_at_def)
  have obs: "observations i (storage_updateDownload i u w) = observations i w @ [spread ?d u]"
    using st(1) by (rule observations_update)
  have law: "lawful (observations i w @ [spread ?d u])"
    using st assms(2,3) by (intro lawful_snoc) simp_all
  show ?thesis
    using law qq assms(4)
    by (simp add: job_at_def obs storage_updateDownload_found(1) [OF st(1)])
qed

lemma job_at_other:
  assumes "job_at q st i w" and "j \<noteq> i"
  shows "job_at q st i (storage_updateDownload j u w)"
  using assms(1) by (simp add: job_at_def update_other_job [OF assms(2)])

lemma job_at_no_path:
  assumes "job_at q st i w" and "st \<noteq> Completed"
  shows "filePath (last (observations i w)) = None"
proof -
  have "list_all path_iff_completed (observations i w)" "observations i w \<noteq> []"
    and s: "status (last (observations i w)) = st"
    using assms(1) by (simp_all add: job_at_def lawful_def)
  then have "path_iff_completed (last (observations i w))"
    by (simp add: list_all_iff)
  then show ?thesis using assms(2) s by (simp add: path_iff_completed_def)
qed

lemma job_at_path_ok:
  assumes "job_at q st i w"
  shows "path_iff_completed (last (observations i w))"
proof -
  have "list_all path_iff_completed (observations i w)" "observations i w \<noteq> []"
    using assms(1) by (simp_all add: job_at_def lawful_def)
  then show ?thesis by (simp add: list_all_iff)
qed

lemma job_at_downloading:
  assumes "job_at q st i w" and "st = Pending \<or> st = Downloading"
  shows "job_at q Downloading i (storage_updateDownload i (status_progress Downloading p) w)"
proof -
  have ne: "st \<noteq> Completed" using assms(2) by auto
  have np: "filePath (last (observations i w)) = None" using assms(1) ne by (rule job_at_no_path)
  have s: "status (spread (last (observations i w)) (status_progress Downloading p)) = Downloading"
    by (simp add: spread_def override_def status_progress_def no_updates_def)
  have "job_at q (status (spread (last (observations i w)) (status_progress Downloading p))) i
          (storage_updateDownload i (status_progress Downloading p) w)"
    using assms(2) np
    by (intro job_at_update [OF assms(1)])
       (auto simp: spread_def override_def status_progress_def no_updates_def
          path_iff_completed_def completed_has_100_def status_step_def)
  then show ?thesis by (simp only: s)
qed

lemma job_at_progress:
  assumes "job_at q st i w" and "q \<longrightarrow> st \<noteq> Completed"
  shows "job_at q st i (storage_updateDownload i (progress_only p) w)"
proof -
  have pk: "path_iff_completed (last (observations i w))" using assms(1) by (rule job_at_path_ok)
  have sd: "status (last (observations i w)) = st" using assms(1) by (simp add: job_at_def)
  have s: "status (spread (last (observations i w)) (progress_only p)) = st"
    using sd by (simp add: spread_def override_def progress_only_def no_updates_def)
  have "job_at q (status (spread (last (observations i w)) (progress_only p))) i
          (storage_updateDownload i (progress_only p) w)"
    using pk sd assms(2)
    by (intro job_at_update [OF assms(1)])
       (auto simp: spread_def override_def progress_only_def no_updates_def
          path_iff_completed_def completed_has_100_def status_step_def)
  then show ?thesis by (simp only: s)
qed

lemma job_at_completed:
  assumes "job_at q Downloading i w"
  shows "job_at q Completed i (storage_updateDownload i (completed_at p) w)"
proof -
  have s: "status (spread (last (observations i w)) (completed_at p)) = Completed"
    by (simp add: spread_def override_def completed_at_def no_updates_def)
  have "job_at q (status (spread (last (observations i w)) (completed_at p))) i
          (storage_updateDownload i (completed_at p) w)"
    by (intro job_at_update [OF assms])
       (simp_all add: spread_def override_def completed_at_def no_updates_def
          path_iff_completed_def completed_has_100_def status_step_def)
  then show ?thesis by (simp only: s)
qed

lemma job_at_failed:
  assumes "job_at q Downloading i w"
  shows "job_at q Failed i (storage_updateDownload i (status_progress Failed 0) w)"
proof -
  have np: "filePath (last (observations i w)) = None" using assms by (rule job_at_no_path) simp
  have s: "status (spread (last (observations i w)) (status_progress Failed 0)) = Failed"
    by (simp add: spread_def override_def status_progress_def no_updates_def)
  have "job_at q (status (spread (last (observations i w)) (status_progress Failed 0))) i
          (storage_updateDownload i (status_progress Failed 0) w)"
    using np
    by (intro job_at_update [OF assms])
       (simp_all add: spread_def override_def status_progress_def no_updates_def
          path_iff_completed_def completed_has_100_def status_step_def)
  then show ?thesis by (simp only: s)
qed

text \<open>
  A progress event handled late writes the progress of some record and nothing else,
  so it keeps what is known of a job, whichever job it belongs to.
\<close>

lemma job_at_queue:
  "job_at False st i (w\<lparr>eventQueue := q\<rparr>) = job_at False st i w"
  by (simp add: job_at_def observations_def)

lemma job_at_run_late:
  assumes "job_at False st i w"
  shows "job_at False st i (run_late e w)"
proof (cases "fst e = i")
  case True
  then show ?thesis using job_at_progress [OF assms, of "snd e"] by (simp add: run_late_def)
next
  case False
  then show ?thesis using job_at_other [OF assms, of "fst e"] by (simp add: run_late_def)
qed

lemma job_at_fold_late:
  assumes "job_at False st i w"
  shows "job_at False st i (fold run_late es w)"
  using assms by (induction es arbitrary: w) (simp_all add: job_at_run_late)

lemma job_at_suspend:
  assumes "job_at q st i w"
  shows "job_at q st i (suspend w)"
proof (cases q)
  case True
  then have "eventQueue w = []" using assms by (simp add: job_at_def)
  then show ?thesis using assms by (simp add: suspend_def)
next
  case False
  show ?thesis
  proof (cases "eventQueue w")
    case Nil
    then show ?thesis using assms by (simp add: suspend_def)
  next
    case (Cons batch later)
    have "job_at False st i (w\<lparr>eventQueue := later\<rparr>)"
      using assms False by (simp add: job_at_queue)
    then show ?thesis
      using False Cons by (simp add: suspend_def job_at_fold_late)
  qed
qed

lemma job_at_drain:
  assumes "job_at q st i w"
  shows "job_at q st i (drain w)"
proof (cases q)
  case True
  then have "eventQueue w = []" using assms by (simp add: job_at_def)
  then have same: "w\<lparr>eventQueue := []\<rparr> = w" by (cases w) simp
  show ?thesis using assms \<open>eventQueue w = []\<close> by (simp add: drain_def same)
next
  case False
  have "job_at False st i (w\<lparr>eventQueue := []\<rparr>)"
    using assms False by (simp add: job_at_queue)
  then show ?thesis using False by (simp add: drain_def job_at_fold_late)
qed

lemma merge_queues_Nil2 [simp]: "merge_queues q [] = q"
  by (cases q) simp_all

lemma job_at_enqueue:
  assumes "job_at q st i w" and "q \<longrightarrow> batches = []"
  shows "job_at q st i (enqueue batches w)"
proof (cases q)
  case True
  then show ?thesis using assms by (simp add: enqueue_def)
next
  case False
  then show ?thesis using assms(1) by (simp add: enqueue_def job_at_queue)
qed


section \<open>The executors\<close>

lemma late_writes_Nil [simp]: "late_writes i [] = []"
  by (simp add: late_writes_def)

lemma ytdl_progress_job:
  assumes "job_at q Downloading i w"
  shows "job_at q Downloading i (ytdl_progress i es w)"
  using assms
proof (induction es arbitrary: w)
  case Nil
  then show ?case by simp
next
  case (Cons e es)
  obtain c d t where e: "e = (c, d, t)" by (cases e) auto
  have "job_at q Downloading i
          (storage_updateDownload i (progress_only (progress_percent d t)) (suspend w))"
    using job_at_suspend [OF Cons.prems] by (rule job_at_progress) simp
  then show ?case using Cons.IH by (simp add: e)
qed

lemma ytdl_stream_behaved:
  assumes "job_at q Downloading i w" and "q \<longrightarrow> lateProgress env = []"
  shows "if fst (ytdl_stream i p env w) = Resolved True
         then job_at q Completed i (snd (ytdl_stream i p env w))
         else job_at q Downloading i (snd (ytdl_stream i p env w))"
proof -
  let ?w2 = "ytdl_progress i (progressEvents env) w"
  let ?late = "late_writes i (lateProgress env)"
  have j2: "job_at q Downloading i ?w2" using assms(1) by (rule ytdl_progress_job)
  have j3: "job_at q Downloading i (suspend ?w2)" using j2 by (rule job_at_suspend)
  have l: "q \<longrightarrow> ?late = []" using assms(2) by simp
  have e: "job_at q Downloading i (enqueue ?late (suspend ?w2))"
    using j3 l by (rule job_at_enqueue)
  have f: "job_at q Completed i
             (enqueue ?late (storage_updateDownload i (completed_at p) (suspend ?w2)))"
    using job_at_completed [OF j3] l by (rule job_at_enqueue)
  show ?thesis
  proof (cases "settling env")
    case None
    then show ?thesis using j2 by (simp add: ytdl_stream_def Let_def)
  next
    case (Some ev)
    then show ?thesis using e f by (cases ev) (simp_all add: ytdl_stream_def Let_def)
  qed
qed

lemma tryYtdlCore_behaved:
  assumes "q \<longrightarrow> lateProgress env = []"
  shows "behaved q i (tryYtdlCore env root i url fmt ttl)"
  unfolding behaved_def
proof (intro allI impI)
  fix w
  assume j: "job_at q Downloading i w"
  let ?w1 = "storage_updateDownload i (status_progress Downloading 10) w"
  have j1: "job_at q Downloading i ?w1"
    using j by (rule job_at_downloading) simp
  have j2: "job_at q Downloading i (suspend ?w1)" using j1 by (rule job_at_suspend)
  note s = ytdl_stream_behaved [OF j2 assms]
  show "if fst (tryYtdlCore env root i url fmt ttl w) = Resolved True
        then job_at q Completed i (snd (tryYtdlCore env root i url fmt ttl w))
        else job_at q Downloading i (snd (tryYtdlCore env root i url fmt ttl w))"
    using j j1 j2 s
    by (simp add: tryYtdlCore_def Let_def split: result.split promise.split option.split)
qed

lemma tryYoutubeDlExec_behaved: "behaved q i (tryYoutubeDlExec env root i url fmt ttl)"
  unfolding behaved_def
proof (intro allI impI)
  fix w
  assume j: "job_at q Downloading i w"
  let ?w1 = "storage_updateDownload i (status_progress Downloading 20) w"
  have j1: "job_at q Downloading i ?w1"
    using j by (rule job_at_downloading) simp
  have j2: "job_at q Downloading i (suspend ?w1)" using j1 by (rule job_at_suspend)
  show "if fst (tryYoutubeDlExec env root i url fmt ttl w) = Resolved True
        then job_at q Completed i (snd (tryYoutubeDlExec env root i url fmt ttl w))
        else job_at q Downloading i (snd (tryYoutubeDlExec env root i url fmt ttl w))"
    using j1 j2 job_at_completed [OF j2]
    by (simp add: tryYoutubeDlExec_def Let_def split: result.split promise.split list.split)
qed

lemma ytdlp_events_behaved:
  assumes "job_at q Downloading i w"
  shows "if fst (ytdlp_events i dir st rd es w) = Resolved True
         then job_at q Completed i (snd (ytdlp_events i dir st rd es w))
         else job_at q Downloading i (snd (ytdlp_events i dir st rd es w))"
  using assms
proof (induction es arbitrary: w)
  case Nil
  then show ?case by simp
next
  case (Cons e es)
  have js: "job_at q Downloading i (suspend w)" using Cons.prems by (rule job_at_suspend)
  show ?case
  proof (cases e)
    case (Close code)
    then show ?thesis
      using Cons.IH [OF js] js job_at_completed [OF js]
      by (cases rd) (auto split: list.split if_splits)
  next
    case ProcessError
    then show ?thesis using js by simp
  qed
qed

lemma tryEnhancedYtDlp_behaved: "behaved q i (tryEnhancedYtDlp env root i url fmt ttl)"
  unfolding behaved_def
proof (intro allI impI)
  fix w
  assume j: "job_at q Downloading i w"
  let ?w1 = "storage_updateDownload i (status_progress Downloading 30) w"
  have j1: "job_at q Downloading i ?w1"
    using j by (rule job_at_downloading) simp
  show "if fst (tryEnhancedYtDlp env root i url fmt ttl w) = Resolved True
        then job_at q Completed i (snd (tryEnhancedYtDlp env root i url fmt ttl w))
        else job_at q Downloading i (snd (tryEnhancedYtDlp env root i url fmt ttl w))"
    using j1 ytdlp_events_behaved [OF j1]
    by (simp add: tryEnhancedYtDlp_def Let_def split: result.split)
qed

text \<open>No executor and no progress event creates or deletes a record.\<close>

lemma fold_late_dom:
  "dom (downloads (storage (fold run_late es w))) = dom (downloads (storage w))"
  by (induction es arbitrary: w) (simp_all add: run_late_def storage_updateDownload_dom)

lemma suspend_dom [simp]:
  "dom (downloads (storage (suspend w))) = dom (downloads (storage w))"
  by (cases "eventQueue w") (simp_all add: suspend_def fold_late_dom)

lemma enqueue_dom [simp]:
  "dom (downloads (storage (enqueue b w))) = dom (downloads (storage w))"
  by (simp add: enqueue_def)








text \<open>
  The first two executors never reject: every throw and rejection happens inside their
  \<open>try\<close> block, under \<open>await\<close> where it is a promise.
\<close>

lemma ytdl_stream_not_rejected: "fst (ytdl_stream i p env w) \<noteq> Rejected"
proof (cases "settling env")
  case None
  then show ?thesis by (simp add: ytdl_stream_def Let_def)
next
  case (Some ev)
  then show ?thesis by (cases ev) (simp_all add: ytdl_stream_def Let_def)
qed

lemma tryYtdlCore_not_rejected: "fst (tryYtdlCore env root i url fmt ttl w) \<noteq> Rejected"
  by (simp add: tryYtdlCore_def Let_def ytdl_stream_not_rejected
      split: result.split promise.split option.split)

lemma tryYoutubeDlExec_not_rejected: "fst (tryYoutubeDlExec env root i url fmt ttl w) \<noteq> Rejected"
  by (simp add: tryYoutubeDlExec_def Let_def split: result.split promise.split list.split)

text \<open>
  In \<open>tryEnhancedYtDlp\<close> the same \<open>readdirSync\<close> runs in the \<open>close\<close> handler, outside
  the \<open>try\<close> block: when it throws after exit code 0 the promise is left unsettled.
\<close>

lemma tryEnhancedYtDlp_close_handler_throws:
  "fst (tryEnhancedYtDlp ytdlp_readdir_throws ''/app'' ''job-1'' ''https://youtu.be/abc'' ''mp4''
          ''My clip'' example_world) = Unsettled"
  by code_simp

text \<open>
  C6 fails for \<open>tryEnhancedYtDlp\<close>: \<open>spawn\<close> is called in the executor of the returned
  promise, which is returned without \<open>await\<close>, so a synchronous throw of \<open>spawn\<close>
  rejects the promise past the \<open>catch\<close>. Evaluated for a url that ends in a NUL
  character, in an environment where the download would otherwise succeed.
\<close>

theorem tryEnhancedYtDlp_rejects:
  "fst (tryEnhancedYtDlp ytdlp_succeeds ''/app'' ''job-1'' url_with_nul ''mp4'' ''My clip''
          example_world) = Rejected
   \<and> fst (tryEnhancedYtDlp ytdlp_succeeds ''/app'' ''job-1'' ''https://youtu.be/abc'' ''mp4''
          ''My clip'' example_world) = Resolved True"
  by code_simp

section \<open>The loop over the strategies\<close>

lemma strategy_loop_first_success:
  assumes "j < length strategies"
    and "fst (attempt strategies w0 j) = Resolved True"
    and "\<forall>m. i \<le> m \<and> m < j \<longrightarrow>
           fst (attempt strategies w0 m) = Resolved False \<or> fst (attempt strategies w0 m) = Rejected"
    and "i \<le> j"
  shows "strategy_loop strategies i (world_at strategies w0 i) =
           (Returned,
            concat (map (\<lambda>m. [Invoked m (fst (attempt strategies w0 m)), Delayed 2000]) [i..<j])
              @ [Invoked j (Resolved True)],
            snd (attempt strategies w0 j))"
  using assms
proof (induction "j - i" arbitrary: i)
  case 0
  then have "i = j" by simp
  then show ?case
    using "0.prems" by (simp add: strategy_loop.simps [of strategies j] attempt_def)
next
  case (Suc d)
  then have lt: "i < j" by simp
  have out: "fst (attempt strategies w0 i) = Resolved False \<or> fst (attempt strategies w0 i) = Rejected"
    using Suc.prems(3) lt by simp
  have ih: "strategy_loop strategies (Suc i) (world_at strategies w0 (Suc i)) =
           (Returned,
            concat (map (\<lambda>m. [Invoked m (fst (attempt strategies w0 m)), Delayed 2000]) [Suc i..<j])
              @ [Invoked j (Resolved True)],
            snd (attempt strategies w0 j))"
    using Suc.hyps(1) [of "Suc i"] Suc.hyps(2) Suc.prems lt by simp
  have wait: "i < length strategies - 1" using lt Suc.prems(1) by simp
  have il: "i < length strategies" using lt Suc.prems(1) by simp
  have w': "suspend (snd ((strategies ! i) (world_at strategies w0 i)))
              = world_at strategies w0 (Suc i)"
    using wait by (simp add: Let_def)
  show ?case
    using out ih wait il
    by (subst strategy_loop.simps)
       (auto simp: attempt_def Let_def upt_conv_Cons [OF lt] w' simp del: world_at.simps)
qed

lemma invocations_attempts:
  assumes "i \<le> j"
  shows "invocations (concat (map (\<lambda>m. [Invoked m (f m), Delayed ms]) [i..<j]) @ [Invoked j out])
           = [i..<Suc j]"
  using assms
proof (induction "j - i" arbitrary: i)
  case 0
  then show ?case by simp
next
  case (Suc d)
  then have "i < j" by simp
  then show ?case using Suc.hyps(1) [of "Suc i"] Suc.hyps(2) by (simp add: upt_conv_Cons)
qed

lemma delays_attempts:
  "delays (concat (map (\<lambda>m. [Invoked m (f m), Delayed ms]) [i..<j]) @ [Invoked j out])
     = replicate (j - i) ms"
proof (induction "j - i" arbitrary: i)
  case 0
  then show ?case by simp
next
  case (Suc d)
  then have lt: "i < j" by simp
  then have "j - i = Suc (j - Suc i)" by simp
  then show ?case using Suc.hyps(1) [of "Suc i"] Suc.hyps(2) lt by (simp add: upt_conv_Cons)
qed

lemma strategy_loop_behaved:
  assumes "\<forall>f \<in> set strategies. behaved q i f" and "job_at q Downloading i w"
  shows "if fst (strategy_loop strategies n w) = Returned
         then job_at q Completed i (snd (snd (strategy_loop strategies n w)))
         else job_at q Downloading i (snd (snd (strategy_loop strategies n w)))"
  using assms
proof (induction strategies n w rule: strategy_loop.induct)
  case (1 strategies n w)
  show ?case
  proof (cases "n < length strategies")
    case False
    then show ?thesis using "1.prems" by (subst (1 2 3) strategy_loop.simps) simp
  next
    case True
    let ?r = "(strategies ! n) w"
    have b: "behaved q i (strategies ! n)" using True "1.prems"(1) by simp
    let ?w'' = "if n < length strategies - 1 then suspend (snd ?r) else snd ?r"
    have step: "if fst ?r = Resolved True then job_at q Completed i (snd ?r)
                else job_at q Downloading i (snd ?r)"
      using b "1.prems"(2) by (simp add: behaved_def)
    show ?thesis
    proof (cases "fst ?r = Resolved True \<or> fst ?r = Unsettled")
      case True
      then show ?thesis
        using step \<open>n < length strategies\<close>
        by (subst (1 2 3) strategy_loop.simps) (auto simp: Let_def)
    next
      case False
      then have ne: "fst ?r \<noteq> Resolved True" "fst ?r \<noteq> Unsettled" by simp_all
      then have "job_at q Downloading i (snd ?r)" using step by simp
      then have jr: "job_at q Downloading i ?w''" by (simp add: job_at_suspend)
      have ih: "if fst (strategy_loop strategies (Suc n) ?w'') = Returned
         then job_at q Completed i (snd (snd (strategy_loop strategies (Suc n) ?w'')))
         else job_at q Downloading i (snd (snd (strategy_loop strategies (Suc n) ?w'')))"
        by (rule "1.IH" [OF \<open>n < length strategies\<close> refl refl refl ne refl refl "1.prems"(1) jr])
      show ?thesis
        using ih False \<open>n < length strategies\<close>
        by (subst (1 2 3) strategy_loop.simps) (auto simp: Let_def split: if_splits)
    qed
  qed
qed





text \<open>
  C1. Let the output directory be available, and let strategy \<open>k\<close> (counted from 1)
  be the first to resolve to true: invoked in turn on the store its predecessors and
  the waits left,
  each strategy before it resolves to false or rejects, and it resolves to true. Then
  the pipeline's trace is the attempts 1 to \<open>k - 1\<close>, each followed at once by one wait
  of 2000 ms, and then the attempt \<open>k\<close>: exactly the strategies 1 to \<open>k\<close> are invoked,
  in order, none after \<open>k\<close>, with exactly \<open>k - 1\<close> waits; the pipeline returns and the
  store is as strategy \<open>k\<close> left it.
\<close>

theorem first_success_stops_pipeline:
  assumes "w1 = storage_updateDownload downloadId (status_progress Downloading 0) w"
    and "de \<or> mk \<noteq> Throws"
    and "1 \<le> k" and "k \<le> length strategies"
    and "fst (attempt strategies w1 (k - 1)) = Resolved True"
    and "\<forall>j<k - 1. fst (attempt strategies w1 j) = Resolved False
                    \<or> fst (attempt strategies w1 j) = Rejected"
  shows "trace (downloadWithStrategies strategies de mk downloadId w)
           = concat (map (\<lambda>j. [Invoked j (fst (attempt strategies w1 j)), Delayed 2000]) [0..<k - 1])
               @ [Invoked (k - 1) (Resolved True)]
     \<and> invocations (trace (downloadWithStrategies strategies de mk downloadId w)) = [0..<k]
     \<and> delays (trace (downloadWithStrategies strategies de mk downloadId w))
         = replicate (k - 1) 2000
     \<and> finished (downloadWithStrategies strategies de mk downloadId w)
     \<and> final (downloadWithStrategies strategies de mk downloadId w)
         = snd (attempt strategies w1 (k - 1))"
proof -
  have nt: "(\<not> de \<and> mk = Throws) = False" using assms(2) by simp
  have lt: "k - 1 < length strategies" using assms(3,4) by simp
  have fails: "\<forall>m. 0 \<le> m \<and> m < k - 1 \<longrightarrow>
      fst (attempt strategies w1 m) = Resolved False \<or> fst (attempt strategies w1 m) = Rejected"
    using assms(6) by simp
  have loop: "strategy_loop strategies 0 w1 =
      (Returned,
       concat (map (\<lambda>m. [Invoked m (fst (attempt strategies w1 m)), Delayed 2000]) [0..<k - 1])
         @ [Invoked (k - 1) (Resolved True)],
       snd (attempt strategies w1 (k - 1)))"
    using strategy_loop_first_success [OF lt assms(5) fails] by simp
  have tr: "trace (downloadWithStrategies strategies de mk downloadId w)
      = concat (map (\<lambda>j. [Invoked j (fst (attempt strategies w1 j)), Delayed 2000]) [0..<k - 1])
          @ [Invoked (k - 1) (Resolved True)]"
    and fin: "finished (downloadWithStrategies strategies de mk downloadId w)"
    and fw: "final (downloadWithStrategies strategies de mk downloadId w)
               = snd (attempt strategies w1 (k - 1))"
    using loop by (simp_all add: downloadWithStrategies_def Let_def nt assms(1) [symmetric])
  have k: "Suc (k - 1) = k" using assms(3) by simp
  have "invocations
          (concat (map (\<lambda>j. [Invoked j (fst (attempt strategies w1 j)), Delayed 2000]) [0..<k - 1])
             @ [Invoked (k - 1) (Resolved True)]) = [0..<Suc (k - 1)]"
    by (rule invocations_attempts) simp
  then have iv: "invocations (trace (downloadWithStrategies strategies de mk downloadId w)) = [0..<k]"
    by (simp only: tr k)
  have dl: "delays (trace (downloadWithStrategies strategies de mk downloadId w))
              = replicate (k - 1) 2000"
    unfolding tr using delays_attempts [of _ 2000 0 "k - 1"] by simp
  show ?thesis using tr iv dl fin fw by simp
qed

theorem first_success_stops_pipeline_witness:
  "trace (downloadWithStrategies
            (strategies_of env_third_succeeds ''job-1'' ''https://youtu.be/abc'' ''mp4'' ''My clip'')
            False (Value ()) ''job-1'' example_world)
     = [Invoked 0 (Resolved False), Delayed 2000, Invoked 1 (Resolved False), Delayed 2000,
        Invoked 2 (Resolved True)]
   \<and> invocations (trace (downloadWithStrategies
            (strategies_of env_third_succeeds ''job-1'' ''https://youtu.be/abc'' ''mp4'' ''My clip'')
            False (Value ()) ''job-1'' example_world)) = [0, 1, 2]
   \<and> delays (trace (downloadWithStrategies
            (strategies_of env_third_succeeds ''job-1'' ''https://youtu.be/abc'' ''mp4'' ''My clip'')
            False (Value ()) ''job-1'' example_world)) = [2000, 2000]"
proof -
  let ?S = "strategies_of env_third_succeeds ''job-1'' ''https://youtu.be/abc'' ''mp4'' ''My clip''"
  let ?w1 = "storage_updateDownload ''job-1'' (status_progress Downloading 0) example_world"
  have h2: "False \<or> Value () \<noteq> (Throws :: unit result)" by simp
  have h3: "1 \<le> (3::nat)" by simp
  have h4: "3 \<le> length ?S" by (simp add: strategies_of_def)
  have h5: "fst (attempt ?S ?w1 (3 - 1)) = Resolved True" by code_simp
  have a0: "fst (attempt ?S ?w1 0) = Resolved False" by code_simp
  have a1: "fst (attempt ?S ?w1 (Suc 0)) = Resolved False" by code_simp
  have h6: "\<forall>j<3 - 1. fst (attempt ?S ?w1 j) = Resolved False \<or> fst (attempt ?S ?w1 j) = Rejected"
  proof (intro allI impI)
    fix j :: nat
    assume "j < 3 - 1"
    then have "j = 0 \<or> j = Suc 0" by auto
    then show "fst (attempt ?S ?w1 j) = Resolved False \<or> fst (attempt ?S ?w1 j) = Rejected"
      using a0 a1 by auto
  qed
  have i3: "[0..<3] = [0, 1, 2::nat]" by (simp add: upt_rec)
  have u2: "[0..<2] = [0, Suc 0]" by (simp add: upt_rec numeral_2_eq_2)
  have r2: "replicate 2 (2000::nat) = [2000, 2000]" by (simp add: numeral_2_eq_2)
  show ?thesis
    using first_success_stops_pipeline [OF refl h2 h3 h4 h5 h6]
    by (simp add: i3 u2 r2 a0 a1)
qed

section \<open>The life of a job\<close>

lemma strategies_of_behaved:
  assumes "q \<longrightarrow> lateProgress (ytdlCore env) = []"
  shows "\<forall>f \<in> set (strategies_of env i url fmt ttl). behaved q i f"
  using assms
  by (simp add: strategies_of_def tryYtdlCore_behaved tryYoutubeDlExec_behaved
      tryEnhancedYtDlp_behaved)

lemma downloadWithStrategies_job:
  assumes "\<forall>f \<in> set strategies. behaved q i f" and "job_at q Pending i w"
  shows "\<exists>st. job_at q st i (final (downloadWithStrategies strategies de mk i w))"
proof -
  let ?w1 = "storage_updateDownload i (status_progress Downloading 0) w"
  have j1: "job_at q Downloading i ?w1"
    using assms(2) by (rule job_at_downloading) simp
  show ?thesis
  proof (cases "\<not> de \<and> mk = Throws")
    case True
    then show ?thesis
      using job_at_failed [OF j1]
      by (auto simp: downloadWithStrategies_def Let_def)
  next
    case False
    then have nt: "(\<not> de \<and> mk = Throws) = False" by simp
    obtain e tr w2 where r: "strategy_loop strategies 0 ?w1 = (e, tr, w2)"
      by (cases "strategy_loop strategies 0 ?w1") auto
    have l: "if e = Returned then job_at q Completed i w2 else job_at q Downloading i w2"
      using strategy_loop_behaved [OF assms(1) j1, of 0] by (auto simp: r split: if_splits)
    show ?thesis
    proof (cases e)
      case Returned
      then have "job_at q Completed i w2" using l by simp
      then show ?thesis
        using Returned by (auto simp: downloadWithStrategies_def Let_def r nt)
    next
      case Exhausted
      then have "job_at q Downloading i w2" using l by simp
      then have "job_at q Failed i (storage_updateDownload i (status_progress Failed 0) w2)"
        by (rule job_at_failed)
      then show ?thesis
        using Exhausted by (auto simp: downloadWithStrategies_def Let_def r nt)
    next
      case Blocked
      then have "job_at q Downloading i w2" using l by simp
      then show ?thesis
        using Blocked by (auto simp: downloadWithStrategies_def Let_def r nt)
    qed
  qed
qed

lemma created_job_at:
  "job_at q Pending uuid
     (snd (storage_createDownload ins uuid now \<lparr>storage = s, history = [], eventQueue = []\<rparr>))"
  by (simp add: job_at_def storage_createDownload_def createDownload_def Let_def
      observations_def lawful_def path_iff_completed_def completed_has_100_def)

lemma job_lifecycle_job:
  assumes "q \<longrightarrow> lateProgress (ytdlCore env) = []"
  shows "\<exists>st. job_at q st uuid (final (job_lifecycle ins uuid now env s))"
proof -
  let ?w0 = "\<lparr>storage = s, history = [], eventQueue = []\<rparr>"
  obtain d w where c: "storage_createDownload ins uuid now ?w0 = (d, w)"
    by (cases "storage_createDownload ins uuid now ?w0") auto
  have i: "id' d = uuid"
    using c by (auto simp: storage_createDownload_def createDownload_def Let_def)
  have j: "job_at q Pending uuid w"
    using created_job_at [of q uuid ins now s] by (simp add: c)
  obtain st where "job_at q st uuid
      (final (downloadWithStrategies
                (strategies_of env uuid (youtubeUrl ins) (format_or_mp4 (format ins)) (title ins))
                (dirExists env) (mkdirSync env) uuid w))"
    using downloadWithStrategies_job [OF strategies_of_behaved [OF assms] j] by blast
  then have "job_at q st uuid (final (job_lifecycle ins uuid now env s))"
    by (simp add: job_lifecycle_def launched_def afterwards_def c i
        downloadWithMultipleStrategies_def job_at_drain)
  then show ?thesis by blast
qed

lemma job_lifecycle_lawful:
  "lawful (observations uuid (final (job_lifecycle ins uuid now env s)))"
  using job_lifecycle_job [of False env uuid ins now s] by (auto simp: job_at_def)

lemma successively_terminal:
  assumes "successively status_step xs" and "Suc n < length xs"
  shows "(xs ! n = Completed \<longrightarrow> xs ! Suc n = Completed)
         \<and> (xs ! n = Failed \<longrightarrow> xs ! Suc n = Failed)"
  using assms
proof (induction xs arbitrary: n)
  case Nil
  then show ?case by simp
next
  case (Cons x xs)
  then have ne: "xs \<noteq> []" by auto
  then have e: "status_step x (hd xs)" and t: "successively status_step xs"
    using Cons.prems(1) by (simp_all add: successively_Cons)
  show ?case
  proof (cases n)
    case 0
    then show ?thesis using e ne by (auto simp: status_step_def hd_conv_nth)
  next
    case (Suc m)
    then show ?thesis using Cons.IH [OF t, of m] Cons.prems(2) by simp
  qed
qed

text \<open>
  C2, as the code has it. Over the operations the server performs on a job's record
  (its creation by \<open>POST /api/download\<close>, then every write of the pipeline run
  started on it and of its executors, progress events handled after an attempt has
  settled included), in any store and whatever the downloaders and the file system do,
  each write leaves the status as it is or changes it from pending to downloading,
  from downloading to completed or from downloading to failed. In particular none of
  these writes changes a completed or a failed status.
\<close>

theorem status_transitions:
  "successively status_step
     (map status (observations uuid (final (job_lifecycle downloadData uuid now env s))))
   \<and> (\<forall>n. Suc n < length (observations uuid (final (job_lifecycle downloadData uuid now env s)))
        \<longrightarrow> (status (observations uuid (final (job_lifecycle downloadData uuid now env s)) ! n)
               = Completed
             \<longrightarrow> status (observations uuid (final (job_lifecycle downloadData uuid now env s))
                    ! Suc n) = Completed)
          \<and> (status (observations uuid (final (job_lifecycle downloadData uuid now env s)) ! n)
               = Failed
             \<longrightarrow> status (observations uuid (final (job_lifecycle downloadData uuid now env s))
                    ! Suc n) = Failed))"
proof -
  let ?os = "observations uuid (final (job_lifecycle downloadData uuid now env s))"
  have s: "successively status_step (map status ?os)"
    using job_lifecycle_lawful [of uuid downloadData now env s] by (simp add: lawful_def)
  have "(status (?os ! n) = Completed \<longrightarrow> status (?os ! Suc n) = Completed)
        \<and> (status (?os ! n) = Failed \<longrightarrow> status (?os ! Suc n) = Failed)"
    if "Suc n < length ?os" for n
    using successively_terminal [OF s, of n] that by simp
  then show ?thesis using s by blast
qed

theorem status_transitions_witness:
  "map status (observations ''job-1'' (final (job_lifecycle example_data ''job-1'' 1000 env_late_progress empty_store)))
     = [Pending, Downloading, Downloading, Downloading, Downloading, Completed, Completed]
   \<and> successively status_step
        [Pending, Downloading, Downloading, Downloading, Downloading, Completed, Completed]"
proof -
  have e: "map status (observations ''job-1'' (final (job_lifecycle example_data ''job-1'' 1000 env_late_progress empty_store)))
     = [Pending, Downloading, Downloading, Downloading, Downloading, Completed, Completed]"
    by code_simp
  show ?thesis
    using status_transitions [of "''job-1''" example_data 1000 env_late_progress empty_store]
    by (simp add: e)
qed

text \<open>
  C2 as stated fails: the store itself enforces no transition. \<open>updateDownload\<close> is
  a store operation, and applied to a completed record with a status of pending it
  leaves the record pending, which is none of the four edges.
\<close>

theorem updateDownload_leaves_completed:
  "map_option status (downloads completed_store ''job-1'') = Some Completed
   \<and> map_option status
        (downloads (snd (updateDownload ''job-1'' (status_progress Pending 0) completed_store))
           ''job-1'') = Some Pending
   \<and> \<not> status_edge Completed Pending"
  by code_simp

text \<open>
  C3. At every observation of a job's record, from creation through the pipeline run,
  \<open>filePath\<close> is non-null exactly when the status is completed.
\<close>

theorem path_iff_completed_invariant:
  "list_all path_iff_completed
     (observations uuid (final (job_lifecycle downloadData uuid now env s)))"
  using job_lifecycle_lawful [of uuid downloadData now env s] by (simp add: lawful_def)

theorem path_iff_completed_invariant_witness:
  "list_all path_iff_completed (observations ''job-1'' (final (job_lifecycle example_data ''job-1'' 1000 env_third_succeeds empty_store)))
   \<and> map filePath (observations ''job-1'' (final (job_lifecycle example_data ''job-1'' 1000 env_third_succeeds empty_store)))
       = [None, None, None, None, Some ''/app/downloads/My_clip.mp4'']
   \<and> map status (observations ''job-1'' (final (job_lifecycle example_data ''job-1'' 1000 env_third_succeeds empty_store)))
       = [Pending, Downloading, Downloading, Downloading, Completed]"
proof -
  have e: "map filePath (observations ''job-1'' (final (job_lifecycle example_data ''job-1'' 1000 env_third_succeeds empty_store)))
       = [None, None, None, None, Some ''/app/downloads/My_clip.mp4'']"
    "map status (observations ''job-1'' (final (job_lifecycle example_data ''job-1'' 1000 env_third_succeeds empty_store)))
       = [Pending, Downloading, Downloading, Downloading, Completed]"
    by code_simp+
  show ?thesis
    using path_iff_completed_invariant
      [of "''job-1''" example_data 1000 env_third_succeeds empty_store]
    by (simp add: e)
qed

text \<open>
  C4, as the code has it. In a life of a job in which no progress event of
  \<open>tryYtdlCore\<close> is handled after that attempt's promise has settled, at every
  observation of the job's record a completed record has progress 100. The converse
  does not hold: see the next theorem.
\<close>

theorem completed_has_100_invariant:
  assumes "lateProgress (ytdlCore env) = []"
  shows "list_all completed_has_100
     (observations uuid (final (job_lifecycle downloadData uuid now env s)))"
  using job_lifecycle_job [of True env uuid downloadData now s] assms
  by (auto simp: job_at_def)

theorem completed_has_100_invariant_witness:
  "lateProgress (ytdlCore env_first_succeeds) = []
   \<and> list_all completed_has_100 (observations ''job-1'' (final (job_lifecycle example_data ''job-1'' 1000 env_first_succeeds empty_store)))
   \<and> status (last (observations ''job-1'' (final (job_lifecycle example_data ''job-1'' 1000 env_first_succeeds empty_store)))) = Completed
   \<and> progress (last (observations ''job-1'' (final (job_lifecycle example_data ''job-1'' 1000 env_first_succeeds empty_store)))) = Some (Finite 100)"
proof -
  have h: "lateProgress (ytdlCore env_first_succeeds) = []"
    by (simp add: env_first_succeeds_def ytdl_downloads_def)
  have e: "status (last (observations ''job-1'' (final (job_lifecycle example_data ''job-1'' 1000 env_first_succeeds empty_store)))) = Completed"
    "progress (last (observations ''job-1'' (final (job_lifecycle example_data ''job-1'' 1000 env_first_succeeds empty_store)))) = Some (Finite 100)"
    by code_simp+
  show ?thesis
    using completed_has_100_invariant [OF h, of "''job-1''" example_data 1000 empty_store]
    by (simp add: e h)
qed

text \<open>
  C4 as stated fails: when \<open>tryYtdlCore\<close> reports the last chunk (8 of 8 bytes) its
  progress handler writes \<open>Math.round(8 / 8 * 100) = 100\<close> while the status is still
  downloading; the \<open>finish\<close> handler completes the record only afterwards.
\<close>

theorem progress_100_while_downloading:
  "status ((observations ''job-1'' (final (job_lifecycle example_data ''job-1'' 1000 env_first_succeeds empty_store))) ! 4) = Downloading
   \<and> progress ((observations ''job-1'' (final (job_lifecycle example_data ''job-1'' 1000 env_first_succeeds empty_store))) ! 4) = Some (Finite 100)
   \<and> \<not> list_all progress_100_iff_completed (observations ''job-1'' (final (job_lifecycle example_data ''job-1'' 1000 env_first_succeeds empty_store)))"
  by code_simp

text \<open>
  Why the condition on late progress events: \<open>tryYtdlCore\<close> fails with a write
  error after 2 of 8 bytes, \<open>tryYoutubeDlExec\<close> completes the record, and the
  progress event for 4 of 8 bytes, handled afterwards, writes 50 onto the completed
  record.
\<close>

lemma late_progress_on_completed:
  "map status (observations ''job-1'' (final (job_lifecycle example_data ''job-1'' 1000 env_late_progress empty_store)))
     = [Pending, Downloading, Downloading, Downloading, Downloading, Completed, Completed]
   \<and> map progress (observations ''job-1'' (final (job_lifecycle example_data ''job-1'' 1000 env_late_progress empty_store)))
     = [Some (Finite 0), Some (Finite 0), Some (Finite 10), Some (Finite 25), Some (Finite 20),
        Some (Finite 100), Some (Finite 50)]"
  by code_simp

section \<open>Exhaustion\<close>



end
